theory Spec2Isabelle
  imports Complex_Main "HOL-Library.Multiset"
begin

section \<open>Data model of scoring.ts\<close>

text \<open>
  The scoring module works on TypeScript values of type \<^verbatim>\<open>number | null | undefined\<close>.
  A \<^verbatim>\<open>number\<close> is modelled by an exact rational: every finite double is one. The
  comparator only subtracts two numbers. On integers of magnitude up to \<open>2^53\<close>, which
  covers the integer fields and the sentinel, double subtraction is exact; on all finite
  doubles it keeps the sign of the exact difference and commutes with swapping the
  operands, and the ranking reads nothing else. NaN and the infinities are not modelled.
\<close>

type_synonym number = rat

datatype ScoreType = TIME | REPS | LOAD | TIME_REPS

text \<open>A property of type \<^verbatim>\<open>number | null | undefined\<close> (an optional, nullable field).\<close>

datatype field = Undefined | Null | Num number

text \<open>
  \<^verbatim>\<open>NormalizedScore\<close> has four such fields. The record is polymorphic in the field type
  so that the result of \<^verbatim>\<open>normalize\<close>, of type \<^verbatim>\<open>Required<NormalizedScore>\<close> with
  fields \<^verbatim>\<open>number | null\<close>, is the same record over \<open>number option\<close>
  (\<open>None\<close> is \<^verbatim>\<open>null\<close>).
\<close>

record 'v Score =
  timeSeconds :: 'v
  reps :: 'v
  loadKg :: 'v
  tiebreakSecs :: 'v

type_synonym NormalizedScore = "field Score"
type_synonym RequiredScore = "number option Score"

text \<open>\<^verbatim>\<open>typeof x === "number"\<close>\<close>

fun typeof_number :: "field \<Rightarrow> bool" where
  "typeof_number (Num x) = True"
| "typeof_number Null = False"
| "typeof_number Undefined = False"

text \<open>\<^verbatim>\<open>x ?? null\<close> on a field: \<^verbatim>\<open>undefined\<close> and \<^verbatim>\<open>null\<close> both give \<^verbatim>\<open>null\<close>.\<close>

fun or_null :: "field \<Rightarrow> number option" where
  "or_null (Num x) = Some x"
| "or_null Null = None"
| "or_null Undefined = None"

text \<open>\<^verbatim>\<open>x ?? d\<close> on a value of type \<^verbatim>\<open>number | null\<close>.\<close>

fun or_default :: "number option \<Rightarrow> number \<Rightarrow> number" where
  "or_default (Some x) d = x"
| "or_default None d = d"

text \<open>
  The non-null assertion \<^verbatim>\<open>x!\<close> is erased by the compiler, so the subtraction
  \<^verbatim>\<open>na.timeSeconds! - nb.timeSeconds!\<close> applies JavaScript's ToNumber to its operands:
  \<^verbatim>\<open>null\<close> converts to 0.
\<close>

fun ToNumber :: "number option \<Rightarrow> number" where
  "ToNumber (Some x) = x"
| "ToNumber None = 0"

definition MAX_SAFE_INTEGER :: number where
  "MAX_SAFE_INTEGER = 9007199254740991"

section \<open>scoring.ts\<close>

subsection \<open>assertScoreMatchesType\<close>

text \<open>The function throws \<^verbatim>\<open>new Error(message)\<close> or returns nothing.\<close>

datatype error = Error string

definition assertScoreMatchesType :: "ScoreType \<Rightarrow> NormalizedScore \<Rightarrow> error + unit" where
  "assertScoreMatchesType scoreType s =
     (let hasTime = typeof_number (timeSeconds s);
          hasReps = typeof_number (reps s);
          hasLoad = typeof_number (loadKg s)
      in case scoreType of
           TIME \<Rightarrow> if \<not> hasTime then Inl (Error ''TIME krever timeSeconds'') else Inr ()
         | REPS \<Rightarrow> if \<not> hasReps then Inl (Error ''REPS krever reps'') else Inr ()
         | LOAD \<Rightarrow> if \<not> hasLoad then Inl (Error ''LOAD krever loadKg'') else Inr ()
         | TIME_REPS \<Rightarrow> if \<not> hasReps then Inl (Error ''TIME_REPS krever reps'') else Inr ())"

subsection \<open>compareScores\<close>

definition normalize :: "NormalizedScore \<Rightarrow> RequiredScore" where
  "normalize s =
     \<lparr> timeSeconds = or_null (timeSeconds s),
       reps = or_null (reps s),
       loadKg = or_null (loadKg s),
       tiebreakSecs = or_null (tiebreakSecs s) \<rparr>"

definition compareScores :: "ScoreType \<Rightarrow> NormalizedScore \<Rightarrow> NormalizedScore \<Rightarrow> number" where
  "compareScores scoreType a b =
     (let na = normalize a;
          nb = normalize b
      in case scoreType of
           TIME \<Rightarrow> ToNumber (timeSeconds na) - ToNumber (timeSeconds nb)
         | REPS \<Rightarrow> ToNumber (reps nb) - ToNumber (reps na)
         | LOAD \<Rightarrow> ToNumber (loadKg nb) - ToNumber (loadKg na)
         | TIME_REPS \<Rightarrow>
             (let repsDiff = ToNumber (reps nb) - ToNumber (reps na)
              in if repsDiff \<noteq> 0 then repsDiff
                 else (let ta = or_default (timeSeconds na) MAX_SAFE_INTEGER;
                           tb = or_default (timeSeconds nb) MAX_SAFE_INTEGER
                       in ta - tb)))"

subsection \<open>computeBenchmarkBeatenCount\<close>

text \<open>The \<^verbatim>\<open>for ... of\<close> loop, with the counter \<^verbatim>\<open>beaten\<close> as accumulator.\<close>

fun beatenLoop :: "ScoreType \<Rightarrow> NormalizedScore \<Rightarrow> NormalizedScore list \<Rightarrow> int \<Rightarrow> int" where
  "beatenLoop scoreType userScore [] beaten = beaten"
| "beatenLoop scoreType userScore (bs # rest) beaten =
     beatenLoop scoreType userScore rest
       (if compareScores scoreType userScore bs < 0 then beaten + 1 else beaten)"

definition computeBenchmarkBeatenCount ::
  "ScoreType \<Rightarrow> NormalizedScore \<Rightarrow> NormalizedScore list \<Rightarrow> int" where
  "computeBenchmarkBeatenCount scoreType userScore benchmarkScores =
     beatenLoop scoreType userScore benchmarkScores 0"

subsection \<open>pointsFromRank\<close>

definition pointsFromRank :: "int \<Rightarrow> int" where
  "pointsFromRank rank =
     (if rank < 1 then 0
      else if rank > 40 then 0
      else 41 - rank)"

subsection \<open>computeRankAmongBenchmarkPlusUser\<close>

text \<open>
  \<^verbatim>\<open>Array.prototype.sort\<close> with a comparison function is a stable sort, and for a
  consistent comparison function the stable sorted arrangement of an array is unique,
  whatever algorithm the engine runs. \<open>compareScores\<close> is consistent
  (\<open>compareScores_antisym\<close>, \<open>compareScores_trans\<close>). The model is the stable
  insertion sort: an element is put in front of the first element it does not compare
  greater than, so it stays in front of the later elements it ties with. Its result is a
  sorted, stable rearrangement of the array (\<open>mset_array_sort\<close>,
  \<open>sorted_array_sort\<close>, \<open>stable_array_sort\<close>).
\<close>

fun placeBy :: "('a \<Rightarrow> 'a \<Rightarrow> number) \<Rightarrow> 'a \<Rightarrow> 'a list \<Rightarrow> 'a list" where
  "placeBy cmp x [] = [x]"
| "placeBy cmp x (y # ys) = (if cmp x y \<le> 0 then x # y # ys else y # placeBy cmp x ys)"

fun array_sort :: "('a \<Rightarrow> 'a \<Rightarrow> number) \<Rightarrow> 'a list \<Rightarrow> 'a list" where
  "array_sort cmp [] = []"
| "array_sort cmp (x # xs) = placeBy cmp x (array_sort cmp xs)"

text \<open>
  \<^verbatim>\<open>Array.prototype.findIndex\<close>: the index of the first element satisfying the
  predicate, \<open>-1\<close> when there is none. The loop counts the index up from 0.
\<close>

fun findIndexFrom :: "('a \<Rightarrow> bool) \<Rightarrow> 'a list \<Rightarrow> int \<Rightarrow> int" where
  "findIndexFrom p [] k = - 1"
| "findIndexFrom p (x # xs) k = (if p x then k else findIndexFrom p xs (k + 1))"

definition findIndex :: "('a \<Rightarrow> bool) \<Rightarrow> 'a list \<Rightarrow> int" where
  "findIndex p xs = findIndexFrom p xs 0"

definition isSameScore :: "NormalizedScore \<Rightarrow> NormalizedScore \<Rightarrow> bool" where
  "isSameScore a b \<longleftrightarrow>
     or_null (timeSeconds a) = or_null (timeSeconds b) \<and>
     or_null (reps a) = or_null (reps b) \<and>
     or_null (loadKg a) = or_null (loadKg b) \<and>
     or_null (tiebreakSecs a) = or_null (tiebreakSecs b)"

text \<open>
  The last two statements of the function, on the sorted array \<^verbatim>\<open>all\<close>: find the
  first entry that is the same score as the user's, and turn its index into a rank.
\<close>

definition rankOfUserIn :: "NormalizedScore \<Rightarrow> NormalizedScore list \<Rightarrow> int" where
  "rankOfUserIn userScore all =
     (let idx = findIndex (\<lambda>s. isSameScore s userScore) all
      in if idx = - 1 then int (length all) else idx + 1)"

definition computeRankAmongBenchmarkPlusUser ::
  "ScoreType \<Rightarrow> NormalizedScore \<Rightarrow> NormalizedScore list \<Rightarrow> int" where
  "computeRankAmongBenchmarkPlusUser scoreType userScore benchmarkScores =
     rankOfUserIn userScore
       (array_sort (compareScores scoreType) (benchmarkScores @ [userScore]))"

section \<open>server.ts: the season summary\<close>

text \<open>
  The handler of \<^verbatim>\<open>GET /summary\<close> reads four tables through Prisma and changes none.
  The tables are lists of rows; \<^verbatim>\<open>findUnique\<close> is \<open>find\<close> and \<^verbatim>\<open>findMany\<close> is
  \<open>filter\<close>, in table order. Only the columns the handler reads are kept. Nullable
  number columns hold \<open>Null\<close> or \<open>Num x\<close>.
\<close>

datatype Competition = OPEN | GAMES
datatype Division = MEN | WOMEN

record Season =
  season_id :: string
  season_year :: int

record Workout =
  workout_id :: string
  workout_seasonId :: string
  workout_competition :: Competition
  workout_division :: Division
  workout_scoreType :: ScoreType

record UserResult =
  ur_userId :: string
  ur_workoutId :: string
  ur_timeSeconds :: field
  ur_reps :: field
  ur_loadKg :: field
  ur_tiebreakSecs :: field

record BenchmarkResult =
  br_workoutId :: string
  br_timeSeconds :: field
  br_reps :: field
  br_loadKg :: field
  br_tiebreakSecs :: field

record Database =
  seasons :: "Season list"
  workouts :: "Workout list"
  userResults :: "UserResult list"
  benchmarkResults :: "BenchmarkResult list"

text \<open>\<^verbatim>\<open>prisma.season.findUnique({ where: { year } })\<close>\<close>

definition findSeason :: "Database \<Rightarrow> int \<Rightarrow> Season option" where
  "findSeason db year = find (\<lambda>s. season_year s = year) (seasons db)"

text \<open>\<^verbatim>\<open>prisma.workout.findMany({ where: { seasonId, competition, division } })\<close>\<close>

definition findWorkouts :: "Database \<Rightarrow> string \<Rightarrow> Competition \<Rightarrow> Division \<Rightarrow> Workout list" where
  "findWorkouts db seasonId competition division =
     filter (\<lambda>w. workout_seasonId w = seasonId \<and> workout_competition w = competition
                 \<and> workout_division w = division) (workouts db)"

text \<open>\<^verbatim>\<open>prisma.userResult.findMany({ where: { userId, workoutId: { in: ids } } })\<close>\<close>

definition findUserResults :: "Database \<Rightarrow> string \<Rightarrow> string list \<Rightarrow> UserResult list" where
  "findUserResults db userId ids =
     filter (\<lambda>r. ur_userId r = userId \<and> ur_workoutId r \<in> set ids) (userResults db)"

text \<open>\<^verbatim>\<open>prisma.benchmarkResult.findMany({ where: { workoutId }, select: ... })\<close>\<close>

definition findBenchmark :: "Database \<Rightarrow> string \<Rightarrow> NormalizedScore list" where
  "findBenchmark db workoutId =
     map (\<lambda>r. \<lparr> timeSeconds = br_timeSeconds r, reps = br_reps r,
                 loadKg = br_loadKg r, tiebreakSecs = br_tiebreakSecs r \<rparr>)
       (filter (\<lambda>r. br_workoutId r = workoutId) (benchmarkResults db))"

record PerWorkout =
  pw_workoutId :: string
  pw_points :: int
  pw_beatenCount :: int
  pw_rank :: int

text \<open>
  The reply. The fields \<^verbatim>\<open>season\<close>, \<^verbatim>\<open>competition\<close> and \<^verbatim>\<open>division\<close> of the reply
  repeat the request and are left out.
\<close>

record Summary =
  completedWorkouts :: int
  totalPoints :: int
  perWorkout :: "PerWorkout list"

text \<open>
  The loop over \<^verbatim>\<open>workouts\<close>, with \<^verbatim>\<open>totalPoints\<close> and \<^verbatim>\<open>perWorkout\<close> as the state
  it updates; \<^verbatim>\<open>continue\<close> goes to the next workout with the state unchanged.
\<close>

fun summaryLoop ::
  "Database \<Rightarrow> UserResult list \<Rightarrow> Workout list \<Rightarrow> int \<times> PerWorkout list
     \<Rightarrow> int \<times> PerWorkout list" where
  "summaryLoop db results [] (sumPoints, per) = (sumPoints, per)"
| "summaryLoop db results (w # ws) (sumPoints, per) =
     (case find (\<lambda>r. ur_workoutId r = workout_id w) results of
        None \<Rightarrow> summaryLoop db results ws (sumPoints, per)
      | Some ur \<Rightarrow>
          (let benchmark = findBenchmark db (workout_id w);
               userScore = \<lparr> timeSeconds = ur_timeSeconds ur, reps = ur_reps ur,
                             loadKg = ur_loadKg ur, tiebreakSecs = ur_tiebreakSecs ur \<rparr>;
               beaten = computeBenchmarkBeatenCount (workout_scoreType w) userScore benchmark;
               rank = computeRankAmongBenchmarkPlusUser (workout_scoreType w) userScore benchmark;
               points = pointsFromRank rank
           in summaryLoop db results ws
                (sumPoints + points,
                 per @ [\<lparr> pw_workoutId = workout_id w, pw_points = points,
                           pw_beatenCount = beaten, pw_rank = rank \<rparr>])))"

text \<open>
  The handler after the user has been resolved (\<^verbatim>\<open>resolveUserIdOrThrow\<close> answers 400
  before any of this runs).
\<close>

definition summary :: "Database \<Rightarrow> string \<Rightarrow> int \<Rightarrow> Competition \<Rightarrow> Division \<Rightarrow> Summary" where
  "summary db userId year competition division =
     (case findSeason db year of
        None \<Rightarrow> \<lparr> completedWorkouts = 0, totalPoints = 0, perWorkout = [] \<rparr>
      | Some season \<Rightarrow>
          (let ws = findWorkouts db (season_id season) competition division;
               results = findUserResults db userId (map workout_id ws);
               (sumPoints, per) = summaryLoop db results ws (0, [])
           in \<lparr> completedWorkouts = int (length per), totalPoints = sumPoints,
                 perWorkout = per \<rparr>))"

section \<open>Vocabulary of the specification\<close>

text \<open>
  The definitions of this section are not code of the repository: they put the words of
  the specification beside the code, for the statements below.
\<close>

text \<open>A field is absent when it holds no number: it is missing or \<^verbatim>\<open>null\<close>.\<close>

fun absent :: "field \<Rightarrow> bool" where
  "absent Undefined = True"
| "absent Null = True"
| "absent (Num x) = False"

text \<open>The rule table of the validator: the one field each discipline requires.\<close>

fun spec_required_field :: "ScoreType \<Rightarrow> NormalizedScore \<Rightarrow> field" where
  "spec_required_field TIME s = timeSeconds s"
| "spec_required_field REPS s = reps s"
| "spec_required_field LOAD s = loadKg s"
| "spec_required_field TIME_REPS s = reps s"

fun spec_discipline_name :: "ScoreType \<Rightarrow> string" where
  "spec_discipline_name TIME = ''TIME''"
| "spec_discipline_name REPS = ''REPS''"
| "spec_discipline_name LOAD = ''LOAD''"
| "spec_discipline_name TIME_REPS = ''TIME_REPS''"

fun spec_required_field_name :: "ScoreType \<Rightarrow> string" where
  "spec_required_field_name TIME = ''timeSeconds''"
| "spec_required_field_name REPS = ''reps''"
| "spec_required_field_name LOAD = ''loadKg''"
| "spec_required_field_name TIME_REPS = ''reps''"

text \<open>
  The time a score enters the TIME_REPS tie-break with: its \<^verbatim>\<open>timeSeconds\<close>, or the
  sentinel when that is absent.
\<close>

fun spec_time_or_sentinel :: "NormalizedScore \<Rightarrow> number" where
  "spec_time_or_sentinel s =
     (case timeSeconds s of Num t \<Rightarrow> t | Null \<Rightarrow> MAX_SAFE_INTEGER | Undefined \<Rightarrow> MAX_SAFE_INTEGER)"

text \<open>
  The workouts in the requested (season, competition, division) scope, in the order the
  handler iterates over them; none when the season does not exist.
\<close>

definition workoutsInScope :: "Database \<Rightarrow> int \<Rightarrow> Competition \<Rightarrow> Division \<Rightarrow> Workout list" where
  "workoutsInScope db year competition division =
     (case findSeason db year of
        None \<Rightarrow> []
      | Some season \<Rightarrow> findWorkouts db (season_id season) competition division)"

text \<open>The user has a recorded performance for the workout: a row of the table says so.\<close>

definition hasPerformance :: "Database \<Rightarrow> string \<Rightarrow> string \<Rightarrow> bool" where
  "hasPerformance db userId workoutId \<longleftrightarrow>
     (userId, workoutId) \<in> set (map (\<lambda>r. (ur_userId r, ur_workoutId r)) (userResults db))"

text \<open>
  A season of three workouts, in which user \<open>u1\<close> has logged the second one only and
  user \<open>u2\<close> the first.
\<close>

definition example_db :: Database where
  "example_db =
     \<lparr> seasons = [\<lparr> season_id = ''s25'', season_year = 2025 \<rparr>],
       workouts =
         [\<lparr> workout_id = ''w1'', workout_seasonId = ''s25'', workout_competition = OPEN,
             workout_division = MEN, workout_scoreType = TIME \<rparr>,
          \<lparr> workout_id = ''w2'', workout_seasonId = ''s25'', workout_competition = OPEN,
             workout_division = MEN, workout_scoreType = REPS \<rparr>,
          \<lparr> workout_id = ''w3'', workout_seasonId = ''s25'', workout_competition = OPEN,
             workout_division = MEN, workout_scoreType = LOAD \<rparr>],
       userResults =
         [\<lparr> ur_userId = ''u2'', ur_workoutId = ''w1'', ur_timeSeconds = Num 700,
             ur_reps = Null, ur_loadKg = Null, ur_tiebreakSecs = Null \<rparr>,
          \<lparr> ur_userId = ''u1'', ur_workoutId = ''w2'', ur_timeSeconds = Null,
             ur_reps = Num 330, ur_loadKg = Null, ur_tiebreakSecs = Null \<rparr>],
       benchmarkResults =
         [\<lparr> br_workoutId = ''w2'', br_timeSeconds = Null, br_reps = Num 420,
             br_loadKg = Null, br_tiebreakSecs = Null \<rparr>,
          \<lparr> br_workoutId = ''w1'', br_timeSeconds = Num 600, br_reps = Null,
             br_loadKg = Null, br_tiebreakSecs = Null \<rparr>,
          \<lparr> br_workoutId = ''w2'', br_timeSeconds = Null, br_reps = Num 300,
             br_loadKg = Null, br_tiebreakSecs = Null \<rparr>] \<rparr>"

text \<open>The object literals \<^verbatim>\<open>{timeSeconds: t}\<close>, \<^verbatim>\<open>{reps: r}\<close> and \<^verbatim>\<open>{reps: r, timeSeconds: t}\<close>.\<close>

definition only_time :: "number \<Rightarrow> NormalizedScore" where
  "only_time t =
     \<lparr> timeSeconds = Num t, reps = Undefined, loadKg = Undefined, tiebreakSecs = Undefined \<rparr>"

definition only_reps :: "number \<Rightarrow> NormalizedScore" where
  "only_reps r =
     \<lparr> timeSeconds = Undefined, reps = Num r, loadKg = Undefined, tiebreakSecs = Undefined \<rparr>"

definition reps_and_time :: "number \<Rightarrow> number \<Rightarrow> NormalizedScore" where
  "reps_and_time r t =
     \<lparr> timeSeconds = Num t, reps = Num r, loadKg = Undefined, tiebreakSecs = Undefined \<rparr>"

section \<open>Properties\<close>

subsection \<open>Beaten count\<close>

lemma beatenLoop_acc:
  "beatenLoop d u bs n = n + int (length (filter (\<lambda>e. compareScores d u e < 0) bs))"
  by (induction bs arbitrary: n) simp_all

text \<open>
  Claim C1. For every discipline, user score and benchmark list,
  \<^verbatim>\<open>computeBenchmarkBeatenCount\<close> returns exactly the number of benchmark entries \<open>e\<close>
  with \<^verbatim>\<open>compareScores(discipline, userScore, e) < 0\<close>. Entries that compare equal to the
  user's score are not counted: on the tied entries alone the count is 0.
\<close>

theorem computeBenchmarkBeatenCount_counts_strictly_beaten:
  "computeBenchmarkBeatenCount d u bs
     = int (length (filter (\<lambda>e. compareScores d u e < 0) bs))
   \<and> computeBenchmarkBeatenCount d u (filter (\<lambda>e. compareScores d u e = 0) bs) = 0"
  by (simp add: computeBenchmarkBeatenCount_def beatenLoop_acc)

subsection \<open>Points\<close>

text \<open>
  Claim C2. For every integer rank, \<^verbatim>\<open>pointsFromRank(rank)\<close> is \<open>41 - rank\<close> when the
  rank lies in \<open>[1, 40]\<close> and 0 when it is below 1 or above 40; ranks 1, 40, 41 and 0 give
  40, 1, 0 and 0; the result is never negative.
\<close>

theorem pointsFromRank_table:
  "pointsFromRank rank = (if 1 \<le> rank \<and> rank \<le> 40 then 41 - rank else 0)
   \<and> pointsFromRank 1 = 40 \<and> pointsFromRank 40 = 1
   \<and> pointsFromRank 41 = 0 \<and> pointsFromRank 0 = 0
   \<and> 0 \<le> pointsFromRank rank"
  by (simp add: pointsFromRank_def)

subsection \<open>The comparator is a consistent comparison function\<close>

lemma compareScores_antisym: "compareScores d a b = - compareScores d b a"
  by (cases d) (simp_all add: compareScores_def Let_def)

lemma compareScores_trans:
  "compareScores d a b \<le> 0 \<Longrightarrow> compareScores d b c \<le> 0 \<Longrightarrow> compareScores d a c \<le> 0"
  by (cases d) (auto simp: compareScores_def Let_def split: if_splits)

lemma compareScores_strict_trans:
  "compareScores d a b < 0 \<Longrightarrow> compareScores d b c < 0 \<Longrightarrow> compareScores d a c < 0"
  by (cases d) (auto simp: compareScores_def Let_def split: if_splits)

text \<open>
  Claim C6. For every discipline and all scores \<open>a\<close>, \<open>b\<close>:
  \<^verbatim>\<open>compareScores(d, a, b) = -compareScores(d, b, a)\<close> and \<^verbatim>\<open>compareScores(d, a, a) = 0\<close>.
  The comparator is defined on every pair, since a missing field enters the subtraction
  as 0 (or as the sentinel), so no condition on the pair is needed.
\<close>

theorem compareScores_antisymmetric_and_reflexive:
  "compareScores d a b = - compareScores d b a \<and> compareScores d a a = 0"
proof
  show "compareScores d a b = - compareScores d b a"
    by (rule compareScores_antisym)
  show "compareScores d a a = 0"
    using compareScores_antisym [of d a a] by simp
qed

subsection \<open>TIME_REPS\<close>

lemma spec_time_or_sentinel_eq:
  "or_default (or_null (timeSeconds s)) MAX_SAFE_INTEGER = spec_time_or_sentinel s"
  by (cases "timeSeconds s") simp_all

lemma compareScores_TIME_REPS_eq:
  "reps a = Num ra \<Longrightarrow> reps b = Num rb \<Longrightarrow>
   compareScores TIME_REPS a b
     = (if rb - ra \<noteq> 0 then rb - ra else spec_time_or_sentinel a - spec_time_or_sentinel b)"
  by (simp add: compareScores_def normalize_def Let_def spec_time_or_sentinel_eq
        del: spec_time_or_sentinel.simps)

text \<open>
  Claim C3, as the code has it. Under TIME_REPS two scores with reps \<open>ra\<close> and \<open>rb\<close> are
  ordered descending by reps; on equal reps they are ordered ascending by timeSeconds,
  an absent timeSeconds counting as \<open>Number.MAX_SAFE_INTEGER\<close>. So on equal reps a score
  without timeSeconds compares strictly worse than one whose recorded timeSeconds is below
  that sentinel, whichever side it stands on; and
  \<^verbatim>\<open>compareScores(TIME_REPS, {reps:100}, {reps:100, timeSeconds:500}) > 0\<close>.
\<close>

theorem compareScores_TIME_REPS_order:
  assumes "reps a = Num ra" and "reps b = Num rb"
  shows "(ra \<noteq> rb \<longrightarrow>
            compareScores TIME_REPS a b = rb - ra
            \<and> (compareScores TIME_REPS a b < 0 \<longleftrightarrow> rb < ra))
       \<and> (ra = rb \<longrightarrow>
            compareScores TIME_REPS a b = spec_time_or_sentinel a - spec_time_or_sentinel b
            \<and> (compareScores TIME_REPS a b < 0
                 \<longleftrightarrow> spec_time_or_sentinel a < spec_time_or_sentinel b))
       \<and> (ra = rb \<and> absent (timeSeconds a) \<and> timeSeconds b = Num t \<and> t < MAX_SAFE_INTEGER
            \<longrightarrow> 0 < compareScores TIME_REPS a b)
       \<and> (ra = rb \<and> timeSeconds a = Num t \<and> t < MAX_SAFE_INTEGER \<and> absent (timeSeconds b)
            \<longrightarrow> compareScores TIME_REPS a b < 0)
       \<and> 0 < compareScores TIME_REPS (only_reps 100) (reps_and_time 100 500)"
proof -
  note eq = compareScores_TIME_REPS_eq [OF assms]
  have unequal: "ra \<noteq> rb \<longrightarrow>
      compareScores TIME_REPS a b = rb - ra \<and> (compareScores TIME_REPS a b < 0 \<longleftrightarrow> rb < ra)"
    by (simp add: eq)
  have equal: "ra = rb \<longrightarrow>
      compareScores TIME_REPS a b = spec_time_or_sentinel a - spec_time_or_sentinel b
      \<and> (compareScores TIME_REPS a b < 0
           \<longleftrightarrow> spec_time_or_sentinel a < spec_time_or_sentinel b)"
    by (simp add: eq del: spec_time_or_sentinel.simps)
  have missing_left:
    "ra = rb \<and> absent (timeSeconds a) \<and> timeSeconds b = Num t \<and> t < MAX_SAFE_INTEGER
       \<longrightarrow> 0 < compareScores TIME_REPS a b"
    by (cases "timeSeconds a") (simp_all add: eq)
  have missing_right:
    "ra = rb \<and> timeSeconds a = Num t \<and> t < MAX_SAFE_INTEGER \<and> absent (timeSeconds b)
       \<longrightarrow> compareScores TIME_REPS a b < 0"
    by (cases "timeSeconds b") (simp_all add: eq)
  have example: "0 < compareScores TIME_REPS (only_reps 100) (reps_and_time 100 500)"
    by (simp add: compareScores_def normalize_def only_reps_def reps_and_time_def
          MAX_SAFE_INTEGER_def)
  from unequal equal missing_left missing_right example show ?thesis
    by blast
qed

theorem compareScores_TIME_REPS_order_witness:
  "compareScores TIME_REPS (only_reps 120) (reps_and_time 100 500) = - 20
   \<and> compareScores TIME_REPS (only_reps 100) (reps_and_time 100 500) = 9007199254740491
   \<and> 0 < compareScores TIME_REPS (only_reps 100) (reps_and_time 100 500)
   \<and> compareScores TIME_REPS (reps_and_time 100 500) (only_reps 100) < 0"
proof -
  have far: "compareScores TIME_REPS (only_reps 120) (reps_and_time 100 500) = - 20"
    using compareScores_TIME_REPS_order
      [of "only_reps 120" 120 "reps_and_time 100 500" 100 500]
    by (simp add: only_reps_def reps_and_time_def)
  have tie: "compareScores TIME_REPS (only_reps 100) (reps_and_time 100 500) = 9007199254740491
      \<and> 0 < compareScores TIME_REPS (only_reps 100) (reps_and_time 100 500)"
    using compareScores_TIME_REPS_order
      [of "only_reps 100" 100 "reps_and_time 100 500" 100 500]
    by (simp add: only_reps_def reps_and_time_def MAX_SAFE_INTEGER_def)
  have tie': "compareScores TIME_REPS (reps_and_time 100 500) (only_reps 100) < 0"
    using compareScores_TIME_REPS_order
      [of "reps_and_time 100 500" 100 "only_reps 100" 100 500]
    by (simp add: only_reps_def reps_and_time_def MAX_SAFE_INTEGER_def)
  from far tie tie' show ?thesis by simp
qed

text \<open>
  The claim as written, for every pair with equal reps of which exactly one has a
  timeSeconds, fails where the recorded time is the sentinel itself: the two scores tie.
\<close>

theorem compareScores_TIME_REPS_sentinel_counterexample:
  "reps (only_reps 100) = reps (reps_and_time 100 9007199254740991)
   \<and> absent (timeSeconds (only_reps 100))
   \<and> timeSeconds (reps_and_time 100 9007199254740991) = Num 9007199254740991
   \<and> \<not> 0 < compareScores TIME_REPS (only_reps 100) (reps_and_time 100 9007199254740991)"
  by (simp add: compareScores_def normalize_def only_reps_def reps_and_time_def
        MAX_SAFE_INTEGER_def)

subsection \<open>The validator\<close>

lemma assertScoreMatchesType_eq:
  "assertScoreMatchesType d s =
     (if absent (spec_required_field d s)
      then Inl (Error (spec_discipline_name d @ '' krever '' @ spec_required_field_name d))
      else Inr ())"
  by (cases d; cases "spec_required_field d s") (simp_all add: assertScoreMatchesType_def)

text \<open>
  Claim C5. \<^verbatim>\<open>assertScoreMatchesType\<close> fails exactly when the one field the discipline
  requires is absent (TIME: timeSeconds, REPS: reps, LOAD: loadKg, TIME_REPS: reps); the
  error it throws names the discipline and that field. Two scores that agree on whether
  the required field is present get the same outcome, whatever their other fields hold.
  \<^verbatim>\<open>validate(TIME, {reps:10})\<close> fails and \<^verbatim>\<open>validate(TIME_REPS, {reps:10})\<close> succeeds.
\<close>

theorem assertScoreMatchesType_required_field_only:
  "(isl (assertScoreMatchesType d s) \<longleftrightarrow> absent (spec_required_field d s))
   \<and> (isl (assertScoreMatchesType d s) \<longrightarrow>
        assertScoreMatchesType d s
          = Inl (Error (spec_discipline_name d @ '' krever '' @ spec_required_field_name d)))
   \<and> (absent (spec_required_field d s) = absent (spec_required_field d s') \<longrightarrow>
        assertScoreMatchesType d s = assertScoreMatchesType d s')
   \<and> isl (assertScoreMatchesType TIME (only_reps 10))
   \<and> assertScoreMatchesType TIME_REPS (only_reps 10) = Inr ()"
proof -
  have fails: "isl (assertScoreMatchesType d s) \<longleftrightarrow> absent (spec_required_field d s)"
    by (simp add: assertScoreMatchesType_eq)
  have message: "isl (assertScoreMatchesType d s) \<longrightarrow>
      assertScoreMatchesType d s
        = Inl (Error (spec_discipline_name d @ '' krever '' @ spec_required_field_name d))"
    by (simp add: assertScoreMatchesType_eq)
  have others: "absent (spec_required_field d s) = absent (spec_required_field d s') \<longrightarrow>
      assertScoreMatchesType d s = assertScoreMatchesType d s'"
    by (simp add: assertScoreMatchesType_eq)
  have ex1: "isl (assertScoreMatchesType TIME (only_reps 10))"
    by (simp add: assertScoreMatchesType_def only_reps_def)
  have ex2: "assertScoreMatchesType TIME_REPS (only_reps 10) = Inr ()"
    by (simp add: assertScoreMatchesType_def only_reps_def)
  from fails message others ex1 ex2 show ?thesis by blast
qed

theorem assertScoreMatchesType_required_field_only_witness:
  "assertScoreMatchesType TIME (only_reps 10) = Inl (Error ''TIME krever timeSeconds'')
   \<and> assertScoreMatchesType TIME
        \<lparr> timeSeconds = Null, reps = Num 3, loadKg = Num 80, tiebreakSecs = Num 12 \<rparr>
       = assertScoreMatchesType TIME (only_reps 10)
   \<and> assertScoreMatchesType TIME_REPS (only_reps 10) = Inr ()"
proof -
  let ?s = "only_reps 10"
  let ?s' = "\<lparr> timeSeconds = Null, reps = Num 3, loadKg = Num 80, tiebreakSecs = Num 12 \<rparr>"
  note claim = assertScoreMatchesType_required_field_only [of TIME ?s ?s']
  have missing: "absent (spec_required_field TIME ?s)"
    by (simp add: only_reps_def)
  have missing': "absent (spec_required_field TIME ?s')"
    by simp
  from claim missing have "isl (assertScoreMatchesType TIME ?s)"
    by blast
  with claim have thrown:
    "assertScoreMatchesType TIME ?s
       = Inl (Error (spec_discipline_name TIME @ '' krever '' @ spec_required_field_name TIME))"
    by blast
  from claim missing missing' have same:
    "assertScoreMatchesType TIME ?s' = assertScoreMatchesType TIME ?s"
    by simp
  from claim have "assertScoreMatchesType TIME_REPS ?s = Inr ()"
    by blast
  with thrown same show ?thesis
    by simp
qed

subsection \<open>Monotonicity of the beaten count\<close>

lemma length_filter_mono:
  "(\<And>x. x \<in> set xs \<Longrightarrow> P x \<Longrightarrow> Q x) \<Longrightarrow> length (filter P xs) \<le> length (filter Q xs)"
  by (induction xs) auto

text \<open>
  Claim C7. For a fixed benchmark list, if \<^verbatim>\<open>compareScores(d, u1, u2) < 0\<close> (\<open>u1\<close> is
  strictly better than \<open>u2\<close>), then the beaten count of \<open>u1\<close> is at least that of \<open>u2\<close>.
\<close>

theorem computeBenchmarkBeatenCount_monotone:
  assumes "compareScores d u1 u2 < 0"
  shows "computeBenchmarkBeatenCount d u2 bs \<le> computeBenchmarkBeatenCount d u1 bs"
proof -
  have "length (filter (\<lambda>e. compareScores d u2 e < 0) bs)
          \<le> length (filter (\<lambda>e. compareScores d u1 e < 0) bs)"
    using assms by (intro length_filter_mono) (rule compareScores_strict_trans)
  then show ?thesis
    by (simp add: computeBenchmarkBeatenCount_def beatenLoop_acc)
qed

theorem computeBenchmarkBeatenCount_monotone_witness:
  "compareScores TIME (only_time 650) (only_time 750) < 0
   \<and> computeBenchmarkBeatenCount TIME (only_time 750)
         [only_time 600, only_time 700, only_time 800]
       \<le> computeBenchmarkBeatenCount TIME (only_time 650)
         [only_time 600, only_time 700, only_time 800]
   \<and> computeBenchmarkBeatenCount TIME (only_time 750)
        [only_time 600, only_time 700, only_time 800] = 1
   \<and> computeBenchmarkBeatenCount TIME (only_time 650)
        [only_time 600, only_time 700, only_time 800] = 2"
proof -
  let ?bs = "[only_time 600, only_time 700, only_time 800]"
  have better: "compareScores TIME (only_time 650) (only_time 750) < 0"
    by (simp add: compareScores_def normalize_def only_time_def)
  note le = computeBenchmarkBeatenCount_monotone [OF better, of ?bs]
  have one: "computeBenchmarkBeatenCount TIME (only_time 750) ?bs = 1"
    by (simp add: computeBenchmarkBeatenCount_def compareScores_def normalize_def only_time_def)
  have two: "computeBenchmarkBeatenCount TIME (only_time 650) ?bs = 2"
    by (simp add: computeBenchmarkBeatenCount_def compareScores_def normalize_def only_time_def)
  from better le one two show ?thesis
    by blast
qed

subsection \<open>Sorting and locating the user\<close>

lemma isSameScore_refl: "isSameScore s s"
  by (simp add: isSameScore_def)

lemma length_placeBy: "length (placeBy cmp x ys) = Suc (length ys)"
  by (induction ys) simp_all

lemma set_placeBy: "set (placeBy cmp x ys) = insert x (set ys)"
  by (induction ys) auto

lemma length_array_sort: "length (array_sort cmp xs) = length xs"
  by (induction xs) (simp_all add: length_placeBy)

text \<open>The model of the sort returns a rearrangement that is sorted and stable.\<close>

lemma mset_placeBy: "mset (placeBy cmp x ys) = add_mset x (mset ys)"
  by (induction ys) simp_all

lemma mset_array_sort: "mset (array_sort cmp xs) = mset xs"
  by (induction xs) (simp_all add: mset_placeBy)

lemma sorted_placeBy:
  "sorted_wrt (\<lambda>x y. compareScores d x y \<le> 0) ys \<Longrightarrow>
   sorted_wrt (\<lambda>x y. compareScores d x y \<le> 0) (placeBy (compareScores d) x ys)"
proof (induction ys)
  case Nil
  show ?case by simp
next
  case (Cons y ys)
  show ?case
  proof (cases "compareScores d x y \<le> 0")
    case True
    with Cons.prems compareScores_trans [of d x y] show ?thesis by auto
  next
    case False
    then have "compareScores d y x \<le> 0"
      using compareScores_antisym [of d x y] by simp
    with False Cons show ?thesis by (auto simp: set_placeBy)
  qed
qed

lemma sorted_array_sort:
  "sorted_wrt (\<lambda>x y. compareScores d x y \<le> 0) (array_sort (compareScores d) xs)"
  by (induction xs) (simp_all add: sorted_placeBy)

lemma compareScores_tied:
  "compareScores d x k = 0 \<Longrightarrow> compareScores d y k = 0 \<Longrightarrow> compareScores d x y = 0"
  using compareScores_trans [of d x k y] compareScores_trans [of d y k x]
    compareScores_antisym [of d k y] compareScores_antisym [of d k x]
    compareScores_antisym [of d x y]
  by simp

lemma stable_placeBy:
  "filter (\<lambda>y. compareScores d y k = 0) (placeBy (compareScores d) x ys)
     = filter (\<lambda>y. compareScores d y k = 0) (x # ys)"
proof (induction ys)
  case Nil
  show ?case by simp
next
  case (Cons y ys)
  show ?case
  proof (cases "compareScores d x y \<le> 0")
    case True
    then show ?thesis by simp
  next
    case False
    then have "\<not> (compareScores d x k = 0 \<and> compareScores d y k = 0)"
      using compareScores_tied [of d x k y] by auto
    with False Cons.IH show ?thesis by auto
  qed
qed

lemma stable_array_sort:
  "filter (\<lambda>y. compareScores d y k = 0) (array_sort (compareScores d) xs)
     = filter (\<lambda>y. compareScores d y k = 0) xs"
  by (induction xs) (simp_all add: stable_placeBy)

lemma findIndexFrom_range:
  "findIndexFrom p xs k \<noteq> - 1 \<Longrightarrow>
     k \<le> findIndexFrom p xs k \<and> findIndexFrom p xs k < k + int (length xs)"
proof (induction xs arbitrary: k)
  case Nil
  then show ?case by simp
next
  case (Cons x xs)
  show ?case
  proof (cases "p x")
    case True
    then show ?thesis by simp
  next
    case False
    with Cons.prems have "findIndexFrom p xs (k + 1) \<noteq> - 1" by simp
    from Cons.IH [OF this] False show ?thesis by simp
  qed
qed

lemma findIndexFrom_first:
  "\<forall>a \<in> set pre. \<not> p a \<Longrightarrow> p u \<Longrightarrow>
     findIndexFrom p (pre @ u # post) k = k + int (length pre)"
  by (induction pre arbitrary: k) simp_all

lemma rankOfUserIn_range:
  "all \<noteq> [] \<Longrightarrow> 1 \<le> rankOfUserIn u all \<and> rankOfUserIn u all \<le> int (length all)"
  using findIndexFrom_range [of "\<lambda>s. isSameScore s u" all 0]
  by (cases all) (auto simp: rankOfUserIn_def findIndex_def Let_def)

text \<open>
  Claim C4. For a benchmark list of length \<open>N\<close> the rank lies in \<open>[1, N+1]\<close>. The rank is
  read off the sorted merged array by \<open>rankOfUserIn\<close>, and on any array of \<open>N+1\<close> entries
  in which no entry is the same score as the user's, \<open>rankOfUserIn\<close> returns \<open>N+1\<close>.
\<close>

theorem computeRankAmongBenchmarkPlusUser_bounds:
  "1 \<le> computeRankAmongBenchmarkPlusUser d u bs
   \<and> computeRankAmongBenchmarkPlusUser d u bs \<le> int (length bs) + 1
   \<and> computeRankAmongBenchmarkPlusUser d u bs
       = rankOfUserIn u (array_sort (compareScores d) (bs @ [u]))
   \<and> (length all = length bs + 1 \<and> findIndex (\<lambda>s. isSameScore s u) all = - 1
        \<longrightarrow> rankOfUserIn u all = int (length bs) + 1)"
proof -
  let ?sorted = "array_sort (compareScores d) (bs @ [u])"
  have len: "length ?sorted = Suc (length bs)"
    by (simp add: length_array_sort)
  then have "?sorted \<noteq> []" by auto
  from rankOfUserIn_range [OF this, of u] len
  have bounds: "1 \<le> computeRankAmongBenchmarkPlusUser d u bs
      \<and> computeRankAmongBenchmarkPlusUser d u bs \<le> int (length bs) + 1"
    by (simp add: computeRankAmongBenchmarkPlusUser_def)
  have fallback: "length all = length bs + 1 \<and> findIndex (\<lambda>s. isSameScore s u) all = - 1
      \<longrightarrow> rankOfUserIn u all = int (length bs) + 1"
    by (simp add: rankOfUserIn_def)
  from bounds fallback show ?thesis
    by (simp add: computeRankAmongBenchmarkPlusUser_def)
qed

theorem computeRankAmongBenchmarkPlusUser_bounds_witness:
  "1 \<le> computeRankAmongBenchmarkPlusUser TIME (only_time 750) [only_time 600]
   \<and> computeRankAmongBenchmarkPlusUser TIME (only_time 750) [only_time 600] \<le> 2
   \<and> findIndex (\<lambda>s. isSameScore s (only_time 750)) [only_time 600, only_time 800] = - 1
   \<and> rankOfUserIn (only_time 750) [only_time 600, only_time 800] = 2"
proof -
  note claim = computeRankAmongBenchmarkPlusUser_bounds
    [of TIME "only_time 750" "[only_time 600]" "[only_time 600, only_time 800]"]
  have lost: "findIndex (\<lambda>s. isSameScore s (only_time 750)) [only_time 600, only_time 800] = - 1"
    by (simp add: findIndex_def isSameScore_def only_time_def)
  from claim lost show ?thesis
    by simp
qed

text \<open>
  Claim C9. With an empty benchmark list the beaten count is 0, the rank is 1 and the
  points for that rank are 40, for every discipline and every user score.
\<close>

theorem empty_benchmark_gives_rank_1_points_40:
  "computeBenchmarkBeatenCount d u [] = 0
   \<and> computeRankAmongBenchmarkPlusUser d u [] = 1
   \<and> pointsFromRank (computeRankAmongBenchmarkPlusUser d u []) = 40"
  by (simp add: computeBenchmarkBeatenCount_def computeRankAmongBenchmarkPlusUser_def
        rankOfUserIn_def findIndex_def isSameScore_refl pointsFromRank_def)

subsection \<open>Rank and beaten count\<close>

lemma placeBy_before:
  "cmp e u \<le> 0 \<Longrightarrow> placeBy cmp e (pre @ u # post) = placeBy cmp e pre @ u # post"
  by (induction pre) simp_all

lemma placeBy_after:
  "\<forall>y \<in> set pre. 0 < cmp e y \<Longrightarrow> 0 < cmp e u \<Longrightarrow>
     placeBy cmp e (pre @ u # post) = pre @ u # placeBy cmp e post"
  by (induction pre) simp_all

text \<open>
  The user's entry is appended last, so the stable sort leaves it behind every benchmark
  entry that compares better or equal, and in front of the others.
\<close>

lemma array_sort_user_last:
  "\<exists>pre post.
     array_sort (compareScores d) (bs @ [u]) = pre @ u # post
     \<and> set pre \<subseteq> set bs
     \<and> (\<forall>y \<in> set pre. compareScores d y u \<le> 0)
     \<and> length pre = length (filter (\<lambda>e. compareScores d e u \<le> 0) bs)"
proof (induction bs)
  case Nil
  show ?case by simp
next
  case (Cons e bs)
  then obtain pre post where
    shape: "array_sort (compareScores d) (bs @ [u]) = pre @ u # post"
    and sub: "set pre \<subseteq> set bs"
    and le: "\<forall>y \<in> set pre. compareScores d y u \<le> 0"
    and len: "length pre = length (filter (\<lambda>e. compareScores d e u \<le> 0) bs)"
    by blast
  show ?case
  proof (cases "compareScores d e u \<le> 0")
    case True
    have "array_sort (compareScores d) ((e # bs) @ [u])
            = placeBy (compareScores d) e pre @ u # post"
      using shape True by (simp add: placeBy_before)
    moreover have "set (placeBy (compareScores d) e pre) \<subseteq> set (e # bs)"
      using sub by (auto simp: set_placeBy)
    moreover have "\<forall>y \<in> set (placeBy (compareScores d) e pre). compareScores d y u \<le> 0"
      using le True by (simp add: set_placeBy)
    moreover have "length (placeBy (compareScores d) e pre)
            = length (filter (\<lambda>e. compareScores d e u \<le> 0) (e # bs))"
      using len True by (simp add: length_placeBy)
    ultimately show ?thesis by blast
  next
    case False
    have above: "\<forall>y \<in> set pre. 0 < compareScores d e y"
    proof
      fix y assume "y \<in> set pre"
      with le have "compareScores d y u \<le> 0" by simp
      with False compareScores_trans [of d e y u] show "0 < compareScores d e y"
        by (cases "compareScores d e y \<le> 0") auto
    qed
    have "array_sort (compareScores d) ((e # bs) @ [u])
            = pre @ u # placeBy (compareScores d) e post"
      using shape False above by (simp add: placeBy_after)
    moreover have "set pre \<subseteq> set (e # bs)"
      using sub by auto
    moreover have "length pre = length (filter (\<lambda>e. compareScores d e u \<le> 0) (e # bs))"
      using len False by simp
    ultimately show ?thesis using le by blast
  qed
qed

lemma rank_without_duplicate:
  assumes "\<forall>e \<in> set bs. \<not> isSameScore e u"
  shows "computeRankAmongBenchmarkPlusUser d u bs
           = int (length (filter (\<lambda>e. compareScores d e u \<le> 0) bs)) + 1"
proof -
  obtain pre post where
    shape: "array_sort (compareScores d) (bs @ [u]) = pre @ u # post"
    and sub: "set pre \<subseteq> set bs"
    and len: "length pre = length (filter (\<lambda>e. compareScores d e u \<le> 0) bs)"
    using array_sort_user_last [of d bs u] by blast
  from assms sub have "\<forall>a \<in> set pre. \<not> isSameScore a u" by blast
  then have "findIndexFrom (\<lambda>s. isSameScore s u) (pre @ u # post) 0 = 0 + int (length pre)"
    by (rule findIndexFrom_first) (rule isSameScore_refl)
  then show ?thesis
    by (simp add: computeRankAmongBenchmarkPlusUser_def rankOfUserIn_def findIndex_def shape len)
qed

lemma not_beaten_iff: "(\<not> compareScores d u e < 0) \<longleftrightarrow> compareScores d e u \<le> 0"
  using compareScores_antisym [of d u e] by auto

text \<open>
  Claim C10. When no benchmark entry is the same score as the user's (\<open>isSameScore\<close>:
  equal field by field, absent fields read as \<^verbatim>\<open>null\<close>), the rank is
  \<open>N - beatenCount + 1\<close> for a benchmark list of length \<open>N\<close>: the user stands behind
  every benchmark entry that is better than or tied with the user.
\<close>

theorem rank_is_length_minus_beaten_plus_1:
  assumes "\<forall>e \<in> set bs. \<not> isSameScore e u"
  shows "computeRankAmongBenchmarkPlusUser d u bs
           = int (length bs) - computeBenchmarkBeatenCount d u bs + 1
         \<and> computeRankAmongBenchmarkPlusUser d u bs
           = int (length (filter (\<lambda>e. compareScores d e u \<le> 0) bs)) + 1"
proof -
  have "length (filter (\<lambda>e. compareScores d u e < 0) bs)
          + length (filter (\<lambda>e. \<not> compareScores d u e < 0) bs) = length bs"
    by (rule sum_length_filter_compl)
  then have "int (length (filter (\<lambda>e. compareScores d e u \<le> 0) bs))
          = int (length bs) - int (length (filter (\<lambda>e. compareScores d u e < 0) bs))"
    by (simp add: not_beaten_iff)
  with rank_without_duplicate [OF assms, of d] show ?thesis
    by (simp add: computeBenchmarkBeatenCount_def beatenLoop_acc)
qed

theorem rank_is_length_minus_beaten_plus_1_witness:
  "computeRankAmongBenchmarkPlusUser TIME (only_time 750)
       [only_time 600, only_time 700, only_time 800]
     = 3 - computeBenchmarkBeatenCount TIME (only_time 750)
             [only_time 600, only_time 700, only_time 800] + 1
   \<and> computeBenchmarkBeatenCount TIME (only_time 750)
       [only_time 600, only_time 700, only_time 800] = 1"
proof -
  let ?bs = "[only_time 600, only_time 700, only_time 800]"
  have distinct: "\<forall>e \<in> set ?bs. \<not> isSameScore e (only_time 750)"
    by (simp add: isSameScore_def only_time_def)
  note claim = rank_is_length_minus_beaten_plus_1 [OF distinct, of TIME]
  have one: "computeBenchmarkBeatenCount TIME (only_time 750) ?bs = 1"
    by (simp add: computeBenchmarkBeatenCount_def compareScores_def normalize_def only_time_def)
  from claim one show ?thesis
    by simp
qed

subsection \<open>Season summary\<close>

lemma summaryLoop_workoutIds:
  "map pw_workoutId (snd (summaryLoop db rs ws (t, p)))
     = map pw_workoutId p
       @ map workout_id (filter (\<lambda>w. workout_id w \<in> set (map ur_workoutId rs)) ws)"
proof (induction ws arbitrary: t p)
  case Nil
  show ?case by simp
next
  case (Cons w ws)
  show ?case
  proof (cases "find (\<lambda>r. ur_workoutId r = workout_id w) rs")
    case None
    then have "workout_id w \<notin> set (map ur_workoutId rs)"
      by (auto simp: find_None_iff)
    with None Cons.IH show ?thesis by simp
  next
    case (Some ur)
    then have "ur \<in> set rs" and "ur_workoutId ur = workout_id w"
      by (auto simp: find_Some_iff)
    then have "workout_id w \<in> set (map ur_workoutId rs)"
      by force
    with Some Cons.IH show ?thesis by (simp add: Let_def)
  qed
qed

lemma summaryLoop_total:
  "fst (summaryLoop db rs ws (t, p)) - sum_list (map pw_points (snd (summaryLoop db rs ws (t, p))))
     = t - sum_list (map pw_points p)"
proof (induction ws arbitrary: t p)
  case Nil
  show ?case by simp
next
  case (Cons w ws)
  show ?case
    by (cases "find (\<lambda>r. ur_workoutId r = workout_id w) rs") (simp_all add: Let_def Cons.IH)
qed

lemma findUserResults_workoutIds:
  "w \<in> set ws \<Longrightarrow>
   workout_id w \<in> set (map ur_workoutId (findUserResults db u (map workout_id ws)))
     \<longleftrightarrow> hasPerformance db u (workout_id w)"
  by (force simp: findUserResults_def hasPerformance_def)

lemma summary_perWorkout:
  "map pw_workoutId (perWorkout (summary db u year c dv))
     = map workout_id
         (filter (\<lambda>w. hasPerformance db u (workout_id w)) (workoutsInScope db year c dv))"
proof (cases "findSeason db year")
  case None
  then show ?thesis by (simp add: summary_def workoutsInScope_def)
next
  case (Some season)
  let ?ws = "findWorkouts db (season_id season) c dv"
  let ?rs = "findUserResults db u (map workout_id ?ws)"
  have "filter (\<lambda>w. workout_id w \<in> set (map ur_workoutId ?rs)) ?ws
          = filter (\<lambda>w. hasPerformance db u (workout_id w)) ?ws"
    by (rule filter_cong [OF refl]) (rule findUserResults_workoutIds)
  with summaryLoop_workoutIds [of db ?rs ?ws 0 "[]"] Some show ?thesis
    by (simp add: summary_def workoutsInScope_def Let_def case_prod_unfold)
qed

lemma summary_completedWorkouts:
  "completedWorkouts (summary db u year c dv) = int (length (perWorkout (summary db u year c dv)))"
  by (cases "findSeason db year") (simp_all add: summary_def Let_def case_prod_unfold)

lemma summary_totalPoints:
  "totalPoints (summary db u year c dv)
     = sum_list (map pw_points (perWorkout (summary db u year c dv)))"
proof (cases "findSeason db year")
  case None
  then show ?thesis by (simp add: summary_def)
next
  case (Some season)
  let ?ws = "findWorkouts db (season_id season) c dv"
  let ?rs = "findUserResults db u (map workout_id ?ws)"
  from summaryLoop_total [of db ?rs ?ws 0 "[]"] Some show ?thesis
    by (simp add: summary_def Let_def case_prod_unfold)
qed

text \<open>
  Claim C8. The entries of \<^verbatim>\<open>perWorkout\<close> are, in iteration order, exactly the workouts
  in scope for which the user has a recorded performance: a workout without one adds no
  entry. \<^verbatim>\<open>completedWorkouts\<close> is the number of those workouts, and \<^verbatim>\<open>totalPoints\<close>
  is the sum of the points of the entries, so a skipped workout adds no points either.
  With three workouts in scope and a result for exactly one of them,
  \<^verbatim>\<open>completedWorkouts\<close> is 1 and \<^verbatim>\<open>perWorkout\<close> has length 1.
\<close>

theorem summary_skips_unattempted:
  "map pw_workoutId (perWorkout (summary db u year c dv))
     = map workout_id
         (filter (\<lambda>w. hasPerformance db u (workout_id w)) (workoutsInScope db year c dv))
   \<and> completedWorkouts (summary db u year c dv)
       = int (length (filter (\<lambda>w. hasPerformance db u (workout_id w))
                        (workoutsInScope db year c dv)))
   \<and> totalPoints (summary db u year c dv)
       = sum_list (map pw_points (perWorkout (summary db u year c dv)))
   \<and> (length (workoutsInScope db year c dv) = 3
        \<and> length (filter (\<lambda>w. hasPerformance db u (workout_id w))
                    (workoutsInScope db year c dv)) = 1
      \<longrightarrow> completedWorkouts (summary db u year c dv) = 1
          \<and> length (perWorkout (summary db u year c dv)) = 1)"
proof -
  let ?S = "summary db u year c dv"
  let ?done = "filter (\<lambda>w. hasPerformance db u (workout_id w)) (workoutsInScope db year c dv)"
  have ids: "map pw_workoutId (perWorkout ?S) = map workout_id ?done"
    by (rule summary_perWorkout)
  then have "length (map pw_workoutId (perWorkout ?S)) = length (map workout_id ?done)"
    by simp
  then have len: "length (perWorkout ?S) = length ?done"
    by simp
  then have count: "completedWorkouts ?S = int (length ?done)"
    by (simp add: summary_completedWorkouts)
  have total: "totalPoints ?S = sum_list (map pw_points (perWorkout ?S))"
    by (rule summary_totalPoints)
  from ids count total len show ?thesis
    by simp
qed

theorem summary_skips_unattempted_witness:
  "length (workoutsInScope example_db 2025 OPEN MEN) = 3
   \<and> map pw_workoutId (perWorkout (summary example_db ''u1'' 2025 OPEN MEN)) = [''w2'']
   \<and> completedWorkouts (summary example_db ''u1'' 2025 OPEN MEN) = 1
   \<and> length (perWorkout (summary example_db ''u1'' 2025 OPEN MEN)) = 1"
proof -
  note claim = summary_skips_unattempted [of example_db "''u1''" 2025 OPEN MEN]
  have scope: "workoutsInScope example_db 2025 OPEN MEN = workouts example_db"
    by (simp add: workoutsInScope_def findSeason_def findWorkouts_def example_db_def)
  have three: "length (workoutsInScope example_db 2025 OPEN MEN) = 3"
    by (simp add: scope) (simp add: example_db_def)
  have attempted:
    "filter (\<lambda>w. hasPerformance example_db ''u1'' (workout_id w))
       (workoutsInScope example_db 2025 OPEN MEN)
     = [\<lparr> workout_id = ''w2'', workout_seasonId = ''s25'', workout_competition = OPEN,
           workout_division = MEN, workout_scoreType = REPS \<rparr>]"
    by (simp add: scope) (simp add: example_db_def hasPerformance_def)
  from claim three attempted show ?thesis
    by simp
qed

end
